theory Spec2Isabelle
  imports Complex_Main
begin

section \<open>Values, errors and render actions\<close>

text \<open>
  The client (\<^verbatim>\<open>chat_with_tools.py\<close>) works on whatever \<^verbatim>\<open>json.loads\<close> and
  \<^verbatim>\<open>resp.json()\<close> hand it, so the model has Python's JSON values as a datatype.
  Python's \<^verbatim>\<open>None\<close> is \<open>JNull\<close>. A \<^verbatim>\<open>dict\<close> is an association list read with
  \<open>map_of\<close>; a \<^verbatim>\<open>str\<close> is a \<open>string\<close>, one \<open>char\<close> for one character of the
  Python string. A \<^verbatim>\<open>float\<close> is kept by its value, with the three special values
  \<^verbatim>\<open>json.loads\<close> accepts.
\<close>

datatype pyfloat = Finite rat | PosInf | NegInf | NaN

datatype json =
    JNull
  | JBool bool
  | JInt int
  | JFloat pyfloat
  | JStr string
  | JArr "json list"
  | JObj "(string \<times> json) list"

text \<open>The exceptions the code can meet; \<open>TransportError\<close> stands for what \<^verbatim>\<open>requests\<close> raises.\<close>

datatype error = AttributeError | TypeError | KeyError | IndexError
  | UnicodeDecodeError | TransportError

text \<open>The values of \<^verbatim>\<open>current_phase\<close>: 'reasoning', 'code', 'executing', 'function', 'text'.\<close>

datatype phase = PReasoning | PCode | PExecuting | PFunction | PText

text \<open>
  Output is the trace of \<^verbatim>\<open>print\<close> calls, one action for each:
  \<^item> \<open>GrayStart\<close>: \<^verbatim>\<open>print("\n\033[90m", end="")\<close>, the first line of the streaming printer;
  \<^item> \<open>BeginPhase p\<close>: the marker printed when \<^verbatim>\<open>current_phase\<close> is set to \<open>p\<close>
    (\<^verbatim>\<open>[thinking] \<close>, \<^verbatim>\<open>[code] \<close>, \<^verbatim>\<open>>>> Executing code...\<close>, \<^verbatim>\<open>[function call] \<close>, the blank
    lines before the answer); in the non-streaming printer the head of the line printed
    for an item (\<^verbatim>\<open>[thinking] \<close>, \<^verbatim>\<open>[code executed]\<close>, the newline before a message text);
  \<^item> \<open>AppendText v\<close>: the value \<open>v\<close> shown by \<^verbatim>\<open>print\<close> or an f-string;
  \<^item> \<open>EllipsisMark\<close>: the \<^verbatim>\<open>'...'\<close> after a cut reasoning preview;
  \<^item> \<open>ExecDone\<close>: \<^verbatim>\<open>>>> Done\<close>;
  \<^item> \<open>ToolAnnounce name\<close>: \<^verbatim>\<open>[Tool Call: name]\<close>; \<open>ToolArguments\<close> and \<open>ToolInstruction\<close>
    are the two lines the non-streaming printer adds;
  \<^item> \<open>OutputsNote\<close>: \<^verbatim>\<open>[output] ...\<close>; \<open>UsageNote\<close>: \<^verbatim>\<open>[tool_output_tokens: ...]\<close>;
  \<^item> \<open>Reset\<close>: \<^verbatim>\<open>print("\033[0m\n")\<close>; \<open>BlankLine\<close>: \<^verbatim>\<open>print()\<close>;
  \<^item> \<open>AssistantLabel\<close> and \<open>ErrorNote\<close>: the two prints of \<^verbatim>\<open>main\<close> around a request.
\<close>

datatype action =
    GrayStart
  | BeginPhase phase
  | AppendText json
  | EllipsisMark
  | ExecDone
  | ToolAnnounce json
  | ToolArguments json
  | ToolInstruction
  | OutputsNote json
  | UsageNote json
  | Reset
  | BlankLine
  | AssistantLabel
  | ErrorNote error

section \<open>Python operations on JSON values\<close>

text \<open>Truth value of an object, as \<^verbatim>\<open>if x:\<close> tests it.\<close>

fun truthy :: "json \<Rightarrow> bool" where
  "truthy JNull = False"
| "truthy (JBool b) = b"
| "truthy (JInt i) = (i \<noteq> 0)"
| "truthy (JFloat (Finite r)) = (r \<noteq> 0)"
| "truthy (JFloat _) = True"
| "truthy (JStr s) = (s \<noteq> [])"
| "truthy (JArr xs) = (xs \<noteq> [])"
| "truthy (JObj kvs) = (kvs \<noteq> [])"

text \<open>\<^verbatim>\<open>d.get(k, dflt)\<close> on the entries of a dict.\<close>

definition getd :: "(string \<times> json) list \<Rightarrow> string \<Rightarrow> json \<Rightarrow> json" where
  "getd kvs k dflt = (case map_of kvs k of None \<Rightarrow> dflt | Some v \<Rightarrow> v)"

text \<open>\<^verbatim>\<open>x.get(k, dflt)\<close> on any value: only a dict has the method.\<close>

fun py_get :: "json \<Rightarrow> string \<Rightarrow> json \<Rightarrow> error + json" where
  "py_get (JObj kvs) k dflt = Inr (getd kvs k dflt)"
| "py_get _ k dflt = Inl AttributeError"

text \<open>
  \<^verbatim>\<open>for x in v\<close>: a list gives its elements, a string its characters, a dict its keys;
  nothing else can be iterated.
\<close>

fun py_iter :: "json \<Rightarrow> error + json list" where
  "py_iter (JArr xs) = Inr xs"
| "py_iter (JStr s) = Inr (map (\<lambda>c. JStr [c]) s)"
| "py_iter (JObj kvs) = Inr (map (\<lambda>kv. JStr (fst kv)) kvs)"
| "py_iter _ = Inl TypeError"

text \<open>
  \<^verbatim>\<open>v[0]\<close>. The keys of a parsed dict are strings, so the key \<^verbatim>\<open>0\<close> is never there.
\<close>

fun index0 :: "json \<Rightarrow> error + json" where
  "index0 (JArr []) = Inl IndexError"
| "index0 (JArr (x # xs)) = Inr x"
| "index0 (JStr []) = Inl IndexError"
| "index0 (JStr (c # s)) = Inr (JStr [c])"
| "index0 (JObj kvs) = Inl KeyError"
| "index0 _ = Inl TypeError"

text \<open>
  \<^verbatim>\<open>v[:200]\<close>: strings and lists can be sliced. (Slicing a dict raises \<^verbatim>\<open>TypeError\<close>,
  \<^verbatim>\<open>KeyError\<close> from Python 3.12 on; either way an exception.)
\<close>

fun slice200 :: "json \<Rightarrow> error + json" where
  "slice200 (JStr s) = Inr (JStr (take 200 s))"
| "slice200 (JArr xs) = Inr (JArr (take 200 xs))"
| "slice200 _ = Inl TypeError"

text \<open>\<^verbatim>\<open>len(v)\<close>.\<close>

fun py_len :: "json \<Rightarrow> error + nat" where
  "py_len (JStr s) = Inr (length s)"
| "py_len (JArr xs) = Inr (length xs)"
| "py_len (JObj kvs) = Inr (length kvs)"
| "py_len _ = Inl TypeError"

text \<open>\<^verbatim>\<open>v > 0\<close>: numbers (and booleans, which are integers) compare with \<^verbatim>\<open>0\<close>.\<close>

fun gt_zero :: "json \<Rightarrow> error + bool" where
  "gt_zero (JInt i) = Inr (0 < i)"
| "gt_zero (JBool b) = Inr b"
| "gt_zero (JFloat (Finite r)) = Inr (0 < r)"
| "gt_zero (JFloat PosInf) = Inr True"
| "gt_zero (JFloat _) = Inr False"
| "gt_zero _ = Inl TypeError"

text \<open>\<^verbatim>\<open>s.startswith(p)\<close>.\<close>

definition startswith :: "string \<Rightarrow> string \<Rightarrow> bool" where
  "startswith s p = (take (length p) s = p)"

section \<open>What the client does not implement\<close>

text \<open>
  The libraries and the server are parameters:
  \<^item> \<open>utf8_decode\<close>: \<^verbatim>\<open>line.decode('utf-8')\<close>, \<open>None\<close> for \<^verbatim>\<open>UnicodeDecodeError\<close>;
  \<^item> \<open>json_loads\<close>: \<^verbatim>\<open>json.loads\<close>, \<open>None\<close> for \<^verbatim>\<open>json.JSONDecodeError\<close>;
  \<^item> \<open>post_stream\<close>: \<^verbatim>\<open>requests.post(..., stream=True)\<close> and \<^verbatim>\<open>resp.iter_lines()\<close>: the
    lines (bytes) the server delivers for a payload, and the exception, if any, that
    ends the delivery;
  \<^item> \<open>post_json\<close>: \<^verbatim>\<open>requests.post(...)\<close> and \<^verbatim>\<open>resp.json()\<close>.
\<close>

record externals =
  utf8_decode :: "string \<Rightarrow> string option"
  json_loads :: "string \<Rightarrow> json option"
  post_stream :: "json \<Rightarrow> string list \<times> error option"
  post_json :: "json \<Rightarrow> error + json"

definition MODEL :: string where
  "MODEL = ''openai/gpt-oss-20b''"

section \<open>Requests\<close>

text \<open>The payload of \<^verbatim>\<open>stream_response\<close> (lines 30 to 37).\<close>

definition stream_payload :: "string \<Rightarrow> json list \<Rightarrow> json \<Rightarrow> (string \<times> json) list" where
  "stream_payload input_text tools previous_id =
     [(''model'', JStr MODEL), (''input'', JStr input_text),
      (''tools'', JArr tools), (''stream'', JBool True)]
     @ (if truthy previous_id then [(''previous_response_id'', previous_id)] else [])"

text \<open>The payload of \<^verbatim>\<open>non_stream_response\<close> (lines 77 to 84).\<close>

definition non_stream_payload :: "string \<Rightarrow> json list \<Rightarrow> json \<Rightarrow> (string \<times> json) list" where
  "non_stream_payload input_text tools previous_id =
     [(''model'', JStr MODEL), (''input'', JStr input_text),
      (''tools'', JArr tools), (''stream'', JBool False)]
     @ (if truthy previous_id then [(''previous_response_id'', previous_id)] else [])"

definition non_stream_response ::
  "externals \<Rightarrow> string \<Rightarrow> json list \<Rightarrow> json \<Rightarrow> error + json" where
  "non_stream_response ext input_text tools previous_id =
     post_json ext (JObj (non_stream_payload input_text tools previous_id))"

section \<open>The event decoder: the loop of \<^verbatim>\<open>stream_response\<close>\<close>

text \<open>
  The generator is read to its end by one \<^verbatim>\<open>for\<close> loop, so it is modelled by the list
  of events it yields together with how it stops: an exception, or the dict it returns
  (which the loop discards). \<open>read_lines ext stop response_id lines\<close> is the loop over the
  remaining \<open>lines\<close>; \<open>stop\<close> is the exception that ends the transport's delivery, if any.
\<close>

fun read_lines ::
  "externals \<Rightarrow> error option \<Rightarrow> json \<Rightarrow> string list \<Rightarrow> json list \<times> (error + json)" where
  "read_lines ext stop response_id [] =
     (case stop of
        Some e \<Rightarrow> ([], Inl e)
      | None \<Rightarrow> ([], Inr (JObj [(''id'', response_id), (''text'', JStr [])])))"
| "read_lines ext stop response_id (line # rest) =
     (if line = [] then read_lines ext stop response_id rest
      else case utf8_decode ext line of
        None \<Rightarrow> ([], Inl UnicodeDecodeError)
      | Some l \<Rightarrow>
          if \<not> startswith l ''data: '' then read_lines ext stop response_id rest
          else let data = drop 6 l in
            if data = ''[DONE]''
            then ([], Inr (JObj [(''id'', response_id), (''text'', JStr [])]))
            else (case json_loads ext data of
              None \<Rightarrow> read_lines ext stop response_id rest
            | Some event \<Rightarrow>
                (case py_get event ''type'' (JStr []) of
                   Inl e \<Rightarrow> ([], Inl e)
                 | Inr event_type \<Rightarrow>
                     if event_type = JStr ''response.created''
                     then (case py_get event ''response'' (JObj []) of
                             Inl e \<Rightarrow> ([], Inl e)
                           | Inr r \<Rightarrow>
                               (case py_get r ''id'' JNull of
                                  Inl e \<Rightarrow> ([], Inl e)
                                | Inr i \<Rightarrow>
                                    (case read_lines ext stop i rest of
                                       (evs, res) \<Rightarrow> (event # evs, res))))
                     else (case read_lines ext stop response_id rest of
                             (evs, res) \<Rightarrow> (event # evs, res)))))"

definition stream_response ::
  "externals \<Rightarrow> string \<Rightarrow> json list \<Rightarrow> json \<Rightarrow> json list \<times> (error + json)" where
  "stream_response ext input_text tools previous_id =
     (case post_stream ext (JObj (stream_payload input_text tools previous_id)) of
        (lines, stop) \<Rightarrow> read_lines ext stop JNull lines)"

section \<open>The phase interpreter: \<^verbatim>\<open>print_streaming_response\<close>\<close>

record st =
  response_id :: json
  current_phase :: "phase option"

text \<open>
  A text delta (the four branches of the same shape): the marker and the phase change
  when \<^verbatim>\<open>current_phase\<close> differs, then the delta.
\<close>

definition delta_branch :: "st \<Rightarrow> phase \<Rightarrow> (string \<times> json) list \<Rightarrow> st \<times> action list" where
  "delta_branch s p ev =
     (if current_phase s \<noteq> Some p
      then (s\<lparr>current_phase := Some p\<rparr>, [BeginPhase p, AppendText (getd ev ''delta'' (JStr []))])
      else (s, [AppendText (getd ev ''delta'' (JStr []))]))"

text \<open>The body of the \<^verbatim>\<open>for\<close> loop (lines 102 to 149), for one event.\<close>

fun handle_event :: "st \<Rightarrow> json \<Rightarrow> error + st \<times> action list" where
  "handle_event s (JObj ev) =
     (let event_type = getd ev ''type'' (JStr []) in
      if event_type = JStr ''response.created'' then
        (case py_get (getd ev ''response'' (JObj [])) ''id'' JNull of
           Inl e \<Rightarrow> Inl e
         | Inr i \<Rightarrow> Inr (s\<lparr>response_id := i\<rparr>, []))
      else if event_type = JStr ''response.reasoning_text.delta'' then
        Inr (delta_branch s PReasoning ev)
      else if event_type = JStr ''response.code_interpreter_call_code.delta'' then
        Inr (delta_branch s PCode ev)
      else if event_type = JStr ''response.code_interpreter_call.interpreting'' then
        Inr (s\<lparr>current_phase := Some PExecuting\<rparr>, [BeginPhase PExecuting])
      else if event_type = JStr ''response.code_interpreter_call.completed'' then
        Inr (s, [ExecDone])
      else if event_type = JStr ''response.function_call_arguments.delta'' then
        Inr (delta_branch s PFunction ev)
      else if event_type = JStr ''response.output_text.delta'' then
        Inr (delta_branch s PText ev)
      else if event_type = JStr ''response.output_item.added'' then
        (case py_get (getd ev ''item'' (JObj [])) ''type'' JNull of
           Inl e \<Rightarrow> Inl e
         | Inr item_type \<Rightarrow>
             if item_type = JStr ''function_call''
             then (case py_get (getd ev ''item'' (JObj [])) ''name'' JNull of
                     Inl e \<Rightarrow> Inl e
                   | Inr name \<Rightarrow> Inr (s, [ToolAnnounce name]))
             else Inr (s, []))
      else Inr (s, []))"
| "handle_event s _ = Inl AttributeError"

text \<open>
  The loop over the events: what was printed, and the exception or the final state.
  What was printed before an exception stays printed.
\<close>

fun run_events :: "st \<Rightarrow> json list \<Rightarrow> action list \<times> (error + st)" where
  "run_events s [] = ([], Inr s)"
| "run_events s (event # rest) =
     (case handle_event s event of
        Inl e \<Rightarrow> ([], Inl e)
      | Inr (s', acts) \<Rightarrow>
          (case run_events s' rest of (acts', res) \<Rightarrow> (acts @ acts', res)))"

text \<open>
  \<^verbatim>\<open>print_streaming_response\<close>: an exception of the loop body comes before one the
  generator would raise later; when the generator stops by an exception after its last
  event, the final reset is not printed and nothing is returned.
\<close>

definition print_streaming_response ::
  "externals \<Rightarrow> string \<Rightarrow> json list \<Rightarrow> json \<Rightarrow> action list \<times> (error + json)" where
  "print_streaming_response ext input_text tools previous_id =
     (case stream_response ext input_text tools previous_id of
        (events, stopped) \<Rightarrow>
          (case run_events \<lparr>response_id = JNull, current_phase = None\<rparr> events of
             (acts, Inl e) \<Rightarrow> (GrayStart # acts, Inl e)
           | (acts, Inr s) \<Rightarrow>
               (case stopped of
                  Inl e \<Rightarrow> (GrayStart # acts, Inl e)
                | Inr _ \<Rightarrow> (GrayStart # acts @ [Reset], Inr (response_id s)))))"

section \<open>The non-streaming printer: \<^verbatim>\<open>print_non_streaming_response\<close>\<close>

text \<open>
  The \<^verbatim>\<open>reasoning\<close> branch (lines 162 to 166): nothing for a falsy \<^verbatim>\<open>content\<close>;
  otherwise the text of \<^verbatim>\<open>content[0]\<close>, cut at 200, and the ellipsis when it was longer.
\<close>

definition reasoning_branch :: "(string \<times> json) list \<Rightarrow> error + action list" where
  "reasoning_branch item =
     (let content = getd item ''content'' (JArr []) in
      if truthy content then
        (case index0 content of
           Inl e \<Rightarrow> Inl e
         | Inr c0 \<Rightarrow>
             (case py_get c0 ''text'' (JStr []) of
                Inl e \<Rightarrow> Inl e
              | Inr text \<Rightarrow>
                  (case slice200 text of
                     Inl e \<Rightarrow> Inl e
                   | Inr shown \<Rightarrow>
                       (case py_len text of
                          Inl e \<Rightarrow> Inl e
                        | Inr n \<Rightarrow>
                            Inr ([BeginPhase PReasoning, AppendText shown]
                                 @ (if 200 < n then [EllipsisMark] else []))))))
      else Inr [])"

text \<open>The \<^verbatim>\<open>code_interpreter_call\<close> branch (lines 168 to 173).\<close>

definition code_branch :: "(string \<times> json) list \<Rightarrow> action list" where
  "code_branch item =
     (let code = getd item ''code'' (JStr []); outputs = getd item ''outputs'' (JArr []) in
      [BeginPhase PCode, AppendText code] @ (if truthy outputs then [OutputsNote outputs] else []))"

text \<open>The \<^verbatim>\<open>function_call\<close> branch (lines 175 to 178).\<close>

definition function_branch :: "(string \<times> json) list \<Rightarrow> action list" where
  "function_branch item =
     [ToolAnnounce (getd item ''name'' JNull), ToolArguments (getd item ''arguments'' JNull),
      ToolInstruction]"

text \<open>
  The \<^verbatim>\<open>message\<close> branch (lines 180 to 183), over the elements \<^verbatim>\<open>c\<close> of the content:
  the blocks printed, and the exception that stopped the loop, if any.
\<close>

fun message_blocks :: "json list \<Rightarrow> action list \<times> error option" where
  "message_blocks [] = ([], None)"
| "message_blocks (c # rest) =
     (case py_get c ''type'' JNull of
        Inl e \<Rightarrow> ([], Some e)
      | Inr t \<Rightarrow>
          (case message_blocks rest of
             (acts, res) \<Rightarrow>
               (if t = JStr ''output_text''
                then (case py_get c ''text'' (JStr []) of
                        Inl e \<Rightarrow> ([], Some e)
                      | Inr text \<Rightarrow> ([BeginPhase PText, AppendText text] @ acts, res))
                else (acts, res))))"

text \<open>One pass of the loop over \<^verbatim>\<open>response.get('output', [])\<close> (lines 160 to 183).\<close>

fun render_item :: "json \<Rightarrow> action list \<times> error option" where
  "render_item (JObj item) =
     (let item_type = getd item ''type'' JNull in
      if item_type = JStr ''reasoning'' then
        (case reasoning_branch item of Inl e \<Rightarrow> ([], Some e) | Inr acts \<Rightarrow> (acts, None))
      else if item_type = JStr ''code_interpreter_call'' then (code_branch item, None)
      else if item_type = JStr ''function_call'' then (function_branch item, None)
      else if item_type = JStr ''message'' then
        (case py_iter (getd item ''content'' (JArr [])) of
           Inl e \<Rightarrow> ([], Some e)
         | Inr cs \<Rightarrow> message_blocks cs)
      else ([], None))"
| "render_item _ = ([], Some AttributeError)"

fun render_items :: "json list \<Rightarrow> action list \<times> error option" where
  "render_items [] = ([], None)"
| "render_items (item # rest) =
     (case render_item item of
        (acts, Some e) \<Rightarrow> (acts, Some e)
      | (acts, None) \<Rightarrow>
          (case render_items rest of (acts', res) \<Rightarrow> (acts @ acts', res)))"

text \<open>The token usage (lines 186 to 190).\<close>

definition usage_note :: "(string \<times> json) list \<Rightarrow> error + action list" where
  "usage_note response =
     (case py_get (getd response ''usage'' (JObj [])) ''output_tokens_details'' (JObj []) of
        Inl e \<Rightarrow> Inl e
      | Inr details \<Rightarrow>
          (case py_get details ''tool_output_tokens'' (JInt 0) of
             Inl e \<Rightarrow> Inl e
           | Inr tool_tokens \<Rightarrow>
               (case gt_zero tool_tokens of
                  Inl e \<Rightarrow> Inl e
                | Inr b \<Rightarrow> Inr (if b then [UsageNote tool_tokens] else []))))"

fun print_non_streaming_response :: "json \<Rightarrow> action list \<times> (error + json)" where
  "print_non_streaming_response (JObj response) =
     (let response_id = getd response ''id'' JNull in
      case py_iter (getd response ''output'' (JArr [])) of
        Inl e \<Rightarrow> ([], Inl e)
      | Inr items \<Rightarrow>
          (case render_items items of
             (acts, Some e) \<Rightarrow> (acts, Inl e)
           | (acts, None) \<Rightarrow>
               (case usage_note response of
                  Inl e \<Rightarrow> (acts, Inl e)
                | Inr note \<Rightarrow> (acts @ note @ [BlankLine], Inr response_id))))"
| "print_non_streaming_response _ = ([], Inl AttributeError)"

section \<open>One request of \<^verbatim>\<open>main\<close>\<close>

text \<open>
  Lines 268 to 278 of the loop of \<^verbatim>\<open>main\<close>: the request is made and printed, and
  \<^verbatim>\<open>previous_id\<close> becomes what the printer returns; on any exception the error is
  printed and \<^verbatim>\<open>previous_id\<close> stays. The result is the output and the new
  \<^verbatim>\<open>previous_id\<close>.
\<close>

definition main_turn ::
  "externals \<Rightarrow> bool \<Rightarrow> string \<Rightarrow> json list \<Rightarrow> json \<Rightarrow> action list \<times> json" where
  "main_turn ext no_stream user_input active_tools previous_id =
     (if no_stream then
        (case non_stream_response ext user_input active_tools previous_id of
           Inl e \<Rightarrow> ([AssistantLabel, ErrorNote e], previous_id)
         | Inr response \<Rightarrow>
             (case print_non_streaming_response response of
                (acts, Inl e) \<Rightarrow> (AssistantLabel # acts @ [ErrorNote e], previous_id)
              | (acts, Inr new_id) \<Rightarrow> (AssistantLabel # acts, new_id)))
      else
        (case print_streaming_response ext user_input active_tools previous_id of
           (acts, Inl e) \<Rightarrow> (AssistantLabel # acts @ [ErrorNote e], previous_id)
         | (acts, Inr new_id) \<Rightarrow> (AssistantLabel # acts, new_id)))"

section \<open>Vocabulary of the properties\<close>

text \<open>An event of a given kind: a dict whose \<^verbatim>\<open>type\<close> is the discriminator string.\<close>

definition is_event :: "string \<Rightarrow> json \<Rightarrow> bool" where
  "is_event t e = (case e of JObj ev \<Rightarrow> getd ev ''type'' (JStr []) = JStr t | _ \<Rightarrow> False)"

text \<open>The four kinds of text delta and the phase each one belongs to.\<close>

definition delta_kinds :: "(string \<times> phase) list" where
  "delta_kinds =
     [(''response.reasoning_text.delta'', PReasoning),
      (''response.code_interpreter_call_code.delta'', PCode),
      (''response.function_call_arguments.delta'', PFunction),
      (''response.output_text.delta'', PText)]"

text \<open>The value a delta event carries, as the printer reads it.\<close>

definition delta_of :: "json \<Rightarrow> json" where
  "delta_of e = (case e of JObj ev \<Rightarrow> getd ev ''delta'' (JStr []) | _ \<Rightarrow> JStr [])"

text \<open>The state at the start of \<^verbatim>\<open>print_streaming_response\<close>.\<close>

definition initial :: st where
  "initial = \<lparr>response_id = JNull, current_phase = None\<rparr>"

text \<open>The id a \<^verbatim>\<open>response.created\<close> event carries: \<^verbatim>\<open>event.get('response', {}).get('id')\<close>.\<close>

definition created_id :: "json \<Rightarrow> json" where
  "created_id e =
     (case e of
        JObj ev \<Rightarrow> (case getd ev ''response'' (JObj []) of JObj r \<Rightarrow> getd r ''id'' JNull | _ \<Rightarrow> JNull)
      | _ \<Rightarrow> JNull)"

text \<open>The values shown by the \<open>AppendText\<close> actions of an output, in order.\<close>

definition appended :: "action list \<Rightarrow> json list" where
  "appended acts = concat (map (\<lambda>a. case a of AppendText v \<Rightarrow> [v] | _ \<Rightarrow> []) acts)"

text \<open>Events as the server sends them (the discriminator strings of the protocol).\<close>

definition created_event :: "string \<Rightarrow> json" where
  "created_event i =
     JObj [(''type'', JStr ''response.created''), (''response'', JObj [(''id'', JStr i)])]"

definition delta_event :: "string \<Rightarrow> string \<Rightarrow> json" where
  "delta_event t d = JObj [(''type'', JStr t), (''delta'', JStr d)]"

definition interpreting_event :: json where
  "interpreting_event = JObj [(''type'', JStr ''response.code_interpreter_call.interpreting'')]"

definition completed_event :: json where
  "completed_event = JObj [(''type'', JStr ''response.code_interpreter_call.completed'')]"

definition function_call_added :: "string \<Rightarrow> json" where
  "function_call_added name =
     JObj [(''type'', JStr ''response.output_item.added''),
           (''item'', JObj [(''type'', JStr ''function_call''), (''name'', JStr name)])]"

text \<open>
  A stand-in for the libraries and the server: bytes decode to themselves, the loader
  reads the listed frame texts as the listed values and fails on every other text, and
  the server delivers the given lines for any request.
\<close>

definition canned :: "(string \<times> json) list \<Rightarrow> string list \<Rightarrow> externals" where
  "canned frames lines =
     \<lparr>utf8_decode = Some, json_loads = map_of frames,
      post_stream = (\<lambda>payload. (lines, None)),
      post_json = (\<lambda>payload. Inl TransportError)\<rparr>"

section \<open>Concrete inputs\<close>

definition reasoning_item_of :: "string \<Rightarrow> (string \<times> json) list" where
  "reasoning_item_of s =
     [(''type'', JStr ''reasoning''), (''content'', JArr [JObj [(''text'', JStr s)]])]"

text \<open>A server whose whole reply is the end marker, and one that sends one answer delta first.\<close>

definition done_only :: externals where
  "done_only = canned [] [''data: [DONE]'']"

definition one_delta :: externals where
  "one_delta =
     canned [(''D'', delta_event ''response.output_text.delta'' ''Hello'')]
       [''data: D'', ''data: [DONE]'']"

text \<open>A server that sends two \<^verbatim>\<open>response.created\<close> events with different ids.\<close>

definition two_ids :: externals where
  "two_ids =
     canned [(''A'', created_event ''resp_a''), (''B'', created_event ''resp_b'')]
       [''data: A'', ''data: B'', ''data: [DONE]'']"

text \<open>The state of the interpreter while the answer is being printed.\<close>

definition answering :: st where
  "answering = \<lparr>response_id = JStr ''resp_1'', current_phase = Some PText\<rparr>"

text \<open>
  A server that sends an answer delta, a frame that is not JSON, another answer delta
  and the end marker.
\<close>

definition garbled :: externals where
  "garbled =
     canned [(''D1'', delta_event ''response.output_text.delta'' ''Hel''),
             (''D2'', delta_event ''response.output_text.delta'' ''lo'')]
       [''data: D1'', ''data: {oops'', ''data: D2'', ''data: [DONE]'']"

section \<open>One turn, delivered in both ways\<close>

text \<open>
  The comparison of the two printers needs the same turn in both forms. A turn is the
  list of its output items, each with the text fragments (deltas) the server produced
  for it: reasoning text, the code of a code interpreter call, the name and the argument
  text of a function call, the text of a message.
\<close>

datatype turn_item =
    TReasoning "string list"
  | TCode "string list"
  | TFunction string "string list"
  | TMessage "string list"


text \<open>
  The streamed form: one delta event for each fragment; a code interpreter call is
  followed by its \<^verbatim>\<open>interpreting\<close> and \<^verbatim>\<open>completed\<close> events, a function call is announced by
  its \<^verbatim>\<open>output_item.added\<close> event. The stream starts with the \<^verbatim>\<open>response.created\<close> event.
\<close>

fun item_events :: "turn_item \<Rightarrow> json list" where
  "item_events (TReasoning ds) = map (delta_event ''response.reasoning_text.delta'') ds"
| "item_events (TCode ds) =
     map (delta_event ''response.code_interpreter_call_code.delta'') ds
     @ [interpreting_event, completed_event]"
| "item_events (TFunction name ds) =
     function_call_added name # map (delta_event ''response.function_call_arguments.delta'') ds"
| "item_events (TMessage ds) = map (delta_event ''response.output_text.delta'') ds"

definition turn_events :: "string \<Rightarrow> turn_item list \<Rightarrow> json list" where
  "turn_events rid items = created_event rid # concat (map item_events items)"

text \<open>The finished form: one item of the response object, holding the whole text.\<close>

fun item_object :: "turn_item \<Rightarrow> json" where
  "item_object (TReasoning ds) =
     JObj [(''type'', JStr ''reasoning''),
           (''content'', JArr [JObj [(''type'', JStr ''reasoning_text''),
                                     (''text'', JStr (concat ds))]])]"
| "item_object (TCode ds) =
     JObj [(''type'', JStr ''code_interpreter_call''), (''code'', JStr (concat ds)),
           (''outputs'', JArr [])]"
| "item_object (TFunction name ds) =
     JObj [(''type'', JStr ''function_call''), (''name'', JStr name),
           (''arguments'', JStr (concat ds))]"
| "item_object (TMessage ds) =
     JObj [(''type'', JStr ''message''),
           (''content'', JArr [JObj [(''type'', JStr ''output_text''),
                                     (''text'', JStr (concat ds))]])]"

definition turn_response :: "string \<Rightarrow> turn_item list \<Rightarrow> json" where
  "turn_response rid items = JObj [(''id'', JStr rid), (''output'', JArr (map item_object items))]"



text \<open>What is read off an output: the phases entered, and the text shown as the answer.\<close>

definition phases_entered :: "action list \<Rightarrow> phase set" where
  "phases_entered acts = set (concat (map (\<lambda>a. case a of BeginPhase p \<Rightarrow> [p] | _ \<Rightarrow> []) acts))"

text \<open>The phase the output is in after some actions, from the phase \<open>ph\<close> before them.\<close>

fun phase_after :: "phase option \<Rightarrow> action list \<Rightarrow> phase option" where
  "phase_after ph [] = ph"
| "phase_after ph (BeginPhase p # acts) = phase_after (Some p) acts"
| "phase_after ph (a # acts) = phase_after ph acts"








text \<open>A turn whose only item is a message with no text.\<close>

definition empty_message_turn :: "turn_item list" where
  "empty_message_turn = [TMessage []]"

section \<open>Requests carry the continuation id only when it is truthy\<close>

lemma payload_previous_id:
  "map_of (stream_payload i t p) ''previous_response_id'' = (if truthy p then Some p else None)"
  "map_of (non_stream_payload i t p) ''previous_response_id'' = (if truthy p then Some p else None)"
  by (simp_all add: stream_payload_def non_stream_payload_def)

text \<open>
  C9. For both kinds of request, the payload has the field \<^verbatim>\<open>previous_response_id\<close> if and
  only if the continuation id is present (not \<^verbatim>\<open>None\<close>) and not the empty string, and the
  field then holds the id: \<^verbatim>\<open>None\<close> and \<^verbatim>\<open>""\<close> are both left out.
\<close>

theorem previous_response_id_included_iff_nonempty:
  "map_of (stream_payload i t JNull) ''previous_response_id'' = None \<and>
   map_of (stream_payload i t (JStr s)) ''previous_response_id''
     = (if s = [] then None else Some (JStr s)) \<and>
   map_of (non_stream_payload i t JNull) ''previous_response_id'' = None \<and>
   map_of (non_stream_payload i t (JStr s)) ''previous_response_id''
     = (if s = [] then None else Some (JStr s))"
  by (simp add: stream_payload_def non_stream_payload_def)

theorem previous_response_id_included_iff_nonempty_witness:
  "map_of (stream_payload ''hi'' [] (JStr [])) ''previous_response_id'' = None \<and>
   map_of (stream_payload ''hi'' [] (JStr ''resp_1'')) ''previous_response_id''
     = Some (JStr ''resp_1'') \<and>
   map_of (non_stream_payload ''hi'' [] (JStr [])) ''previous_response_id'' = None \<and>
   map_of (non_stream_payload ''hi'' [] (JStr ''resp_1'')) ''previous_response_id''
     = Some (JStr ''resp_1'')"
  using previous_response_id_included_iff_nonempty [of "''hi''" "[]" "[]"]
    previous_response_id_included_iff_nonempty [of "''hi''" "[]" "''resp_1''"]
  by simp

section \<open>The reasoning preview of the non-streaming printer\<close>

lemma reasoning_preview:
  assumes "getd item ''type'' JNull = JStr ''reasoning''"
    and "getd item ''content'' (JArr []) = JArr (c0 # others)"
    and "py_get c0 ''text'' (JStr []) = Inr (JStr s)"
  shows "render_item (JObj item) =
     ([BeginPhase PReasoning, AppendText (JStr (take 200 s))]
      @ (if 200 < length s then [EllipsisMark] else []), None)"
  using assms by (simp add: reasoning_branch_def)

text \<open>
  C7. In the non-streaming printer, a reasoning text of exactly 200 characters is shown
  in full with no ellipsis, and one of 201 characters is shown as its first 200
  characters followed by the ellipsis.
\<close>

theorem reasoning_truncation_boundary:
  assumes "getd item ''type'' JNull = JStr ''reasoning''"
    and "getd item ''content'' (JArr []) = JArr (JObj c0 # others)"
    and "getd c0 ''text'' (JStr []) = JStr s"
  shows "(length s = 200 \<longrightarrow>
            render_item (JObj item) = ([BeginPhase PReasoning, AppendText (JStr s)], None)) \<and>
         (length s = 201 \<longrightarrow>
            render_item (JObj item)
              = ([BeginPhase PReasoning, AppendText (JStr (take 200 s)), EllipsisMark], None))"
proof -
  have "py_get (JObj c0) ''text'' (JStr []) = Inr (JStr s)"
    using assms(3) by simp
  from reasoning_preview [OF assms(1) assms(2) this] show ?thesis
    by simp
qed

theorem reasoning_truncation_boundary_witness:
  "render_item (JObj (reasoning_item_of (replicate 200 CHR ''a'')))
     = ([BeginPhase PReasoning, AppendText (JStr (replicate 200 CHR ''a''))], None) \<and>
   render_item (JObj (reasoning_item_of (replicate 201 CHR ''a'')))
     = ([BeginPhase PReasoning, AppendText (JStr (replicate 200 CHR ''a'')), EllipsisMark], None)"
proof -
  have t: "getd (reasoning_item_of s) ''type'' JNull = JStr ''reasoning''" for s
    by (simp add: reasoning_item_of_def getd_def)
  have c: "getd (reasoning_item_of s) ''content'' (JArr []) = JArr (JObj [(''text'', JStr s)] # [])"
    for s by (simp add: reasoning_item_of_def getd_def)
  have x: "getd [(''text'', JStr s)] ''text'' (JStr []) = JStr s" for s
    by (simp add: getd_def)
  show ?thesis
    using reasoning_truncation_boundary [OF t c x, of "replicate 200 CHR ''a''"]
      reasoning_truncation_boundary [OF t c x, of "replicate 201 CHR ''a''"]
    by simp
qed

text \<open>
  C10. In the non-streaming printer, a reasoning item whose content list is empty prints
  nothing: no phase marker and no text.
\<close>

theorem empty_reasoning_content_prints_nothing:
  assumes "getd item ''type'' JNull = JStr ''reasoning''"
    and "getd item ''content'' (JArr []) = JArr []"
  shows "render_item (JObj item) = ([], None)"
  using assms by (simp add: reasoning_branch_def)

theorem empty_reasoning_content_prints_nothing_witness:
  "render_item (JObj [(''type'', JStr ''reasoning''), (''content'', JArr [])]) = ([], None)"
proof -
  have t: "getd [(''type'', JStr ''reasoning''), (''content'', JArr [])] ''type'' JNull
             = JStr ''reasoning''"
    by (simp add: getd_def)
  have c: "getd [(''type'', JStr ''reasoning''), (''content'', JArr [])] ''content'' (JArr [])
             = JArr []"
    by (simp add: getd_def)
  show ?thesis
    by (rule empty_reasoning_content_prints_nothing [OF t c])
qed

section \<open>The phase interpreter, event by event\<close>

lemma handle_delta:
  assumes "(t, p) \<in> set delta_kinds" and "is_event t e"
  shows "handle_event s e =
     Inr (if current_phase s \<noteq> Some p
          then (s\<lparr>current_phase := Some p\<rparr>, [BeginPhase p, AppendText (delta_of e)])
          else (s, [AppendText (delta_of e)]))"
  using assms
  by (cases e) (auto simp: delta_kinds_def is_event_def delta_of_def delta_branch_def)

lemma run_events_same_phase:
  assumes "(t, p) \<in> set delta_kinds" and "\<forall>e\<in>set es. is_event t e"
    and "current_phase s = Some p"
  shows "run_events s es = (map (\<lambda>e. AppendText (delta_of e)) es, Inr s)"
  using assms(2)
proof (induction es)
  case Nil
  then show ?case by simp
next
  case (Cons e es)
  then have "is_event t e" by simp
  from handle_delta [OF assms(1) this, of s] assms(3)
  have "handle_event s e = Inr (s, [AppendText (delta_of e)])" by simp
  with Cons show ?case by simp
qed

lemma is_event_delta_event: "is_event t (delta_event t d)"
  by (simp add: is_event_def delta_event_def getd_def)

lemma delta_of_delta_event: "delta_of (delta_event t d) = JStr d"
  by (simp add: delta_of_def delta_event_def getd_def)

text \<open>
  C4. A run of one or more deltas of one kind (reasoning, code, function arguments or
  answer text), starting in another phase, prints the phase marker exactly once and then
  one text for each delta.
\<close>

theorem delta_run_begins_phase_once:
  assumes "(t, p) \<in> set delta_kinds" and "es \<noteq> []" and "\<forall>e\<in>set es. is_event t e"
    and "current_phase s \<noteq> Some p"
  shows "run_events s es =
     (BeginPhase p # map (\<lambda>e. AppendText (delta_of e)) es, Inr (s\<lparr>current_phase := Some p\<rparr>))"
proof (cases es)
  case Nil
  with assms(2) show ?thesis by simp
next
  case (Cons e rest)
  with assms(3) have e: "is_event t e" and rest: "\<forall>x\<in>set rest. is_event t x"
    by simp_all
  from handle_delta [OF assms(1) e, of s] assms(4)
  have h: "handle_event s e
             = Inr (s\<lparr>current_phase := Some p\<rparr>, [BeginPhase p, AppendText (delta_of e)])"
    by simp
  have "run_events (s\<lparr>current_phase := Some p\<rparr>) rest
          = (map (\<lambda>e. AppendText (delta_of e)) rest, Inr (s\<lparr>current_phase := Some p\<rparr>))"
    by (rule run_events_same_phase [OF assms(1) rest]) simp
  with h Cons show ?thesis by simp
qed

theorem delta_run_begins_phase_once_witness:
  "run_events initial
     [delta_event ''response.reasoning_text.delta'' ''a'',
      delta_event ''response.reasoning_text.delta'' ''b'',
      delta_event ''response.reasoning_text.delta'' ''c'']
   = ([BeginPhase PReasoning, AppendText (JStr ''a''), AppendText (JStr ''b''),
       AppendText (JStr ''c'')],
      Inr \<lparr>response_id = JNull, current_phase = Some PReasoning\<rparr>)"
proof -
  have k: "(''response.reasoning_text.delta'', PReasoning) \<in> set delta_kinds"
    by (simp add: delta_kinds_def)
  have n: "[delta_event ''response.reasoning_text.delta'' ''a'',
            delta_event ''response.reasoning_text.delta'' ''b'',
            delta_event ''response.reasoning_text.delta'' ''c''] \<noteq> []"
    by simp
  have a: "\<forall>e\<in>set [delta_event ''response.reasoning_text.delta'' ''a'',
            delta_event ''response.reasoning_text.delta'' ''b'',
            delta_event ''response.reasoning_text.delta'' ''c''].
          is_event ''response.reasoning_text.delta'' e"
    by (simp add: is_event_delta_event)
  have c: "current_phase initial \<noteq> Some PReasoning"
    by (simp add: initial_def)
  show ?thesis
    using delta_run_begins_phase_once [OF k n a c]
    by (simp add: delta_of_delta_event initial_def)
qed

text \<open>
  C5. An \<^verbatim>\<open>output_item.added\<close> event whose item is a \<^verbatim>\<open>function_call\<close> prints the tool
  announcement in every state, and leaves the state (the phase and the captured id) as
  it was.
\<close>

theorem function_call_item_announced_in_any_phase:
  assumes "getd ev ''type'' (JStr []) = JStr ''response.output_item.added''"
    and "getd ev ''item'' (JObj []) = JObj item"
    and "getd item ''type'' JNull = JStr ''function_call''"
  shows "handle_event s (JObj ev) = Inr (s, [ToolAnnounce (getd item ''name'' JNull)])"
  using assms by simp

theorem function_call_item_announced_in_any_phase_witness:
  "handle_event answering (function_call_added ''get_weather'')
     = Inr (answering, [ToolAnnounce (JStr ''get_weather'')])"
proof -
  have t: "getd [(''type'', JStr ''response.output_item.added''),
                 (''item'', JObj [(''type'', JStr ''function_call''),
                                  (''name'', JStr ''get_weather'')])] ''type'' (JStr [])
             = JStr ''response.output_item.added''"
    by (simp add: getd_def)
  have i: "getd [(''type'', JStr ''response.output_item.added''),
                 (''item'', JObj [(''type'', JStr ''function_call''),
                                  (''name'', JStr ''get_weather'')])] ''item'' (JObj [])
             = JObj [(''type'', JStr ''function_call''), (''name'', JStr ''get_weather'')]"
    by (simp add: getd_def)
  have f: "getd [(''type'', JStr ''function_call''), (''name'', JStr ''get_weather'')]
             ''type'' JNull = JStr ''function_call''"
    by (simp add: getd_def)
  have n: "getd [(''type'', JStr ''function_call''), (''name'', JStr ''get_weather'')]
             ''name'' JNull = JStr ''get_weather''"
    by (simp add: getd_def)
  show ?thesis
    using function_call_item_announced_in_any_phase [OF t i f, of answering] n
    by (simp add: function_call_added_def)
qed

text \<open>
  C6, as the code has it. A \<^verbatim>\<open>code_interpreter_call.completed\<close> event prints the done
  marker and leaves the phase as it was; it does not set it to \<^verbatim>\<open>None\<close>. After an
  \<^verbatim>\<open>interpreting\<close> event the phase is 'executing', which no delta kind has, so the delta
  that follows the pair begins a new phase, whatever its kind.
\<close>

theorem completed_leaves_phase_unchanged:
  assumes "is_event ''response.code_interpreter_call.completed'' fin"
  shows "handle_event s fin = Inr (s, [ExecDone]) \<and>
         (is_event ''response.code_interpreter_call.interpreting'' start \<longrightarrow>
          (t, p) \<in> set delta_kinds \<longrightarrow> is_event t d \<longrightarrow>
            run_events s [start, fin, d]
              = ([BeginPhase PExecuting, ExecDone, BeginPhase p, AppendText (delta_of d)],
                 Inr (s\<lparr>current_phase := Some p\<rparr>)))"
proof -
  have fin: "handle_event s' fin = Inr (s', [ExecDone])" for s'
    using assms by (cases fin) (auto simp: is_event_def)
  have "run_events s [start, fin, d]
          = ([BeginPhase PExecuting, ExecDone, BeginPhase p, AppendText (delta_of d)],
             Inr (s\<lparr>current_phase := Some p\<rparr>))"
    if st: "is_event ''response.code_interpreter_call.interpreting'' start"
      and k: "(t, p) \<in> set delta_kinds" and d: "is_event t d"
  proof -
    have h1: "handle_event s start
                = Inr (s\<lparr>current_phase := Some PExecuting\<rparr>, [BeginPhase PExecuting])"
      using st by (cases start) (auto simp: is_event_def)
    have "p \<noteq> PExecuting"
      using k by (auto simp: delta_kinds_def)
    with handle_delta [OF k d, of "s\<lparr>current_phase := Some PExecuting\<rparr>"]
    have h3: "handle_event (s\<lparr>current_phase := Some PExecuting\<rparr>) d
                = Inr (s\<lparr>current_phase := Some p\<rparr>, [BeginPhase p, AppendText (delta_of d)])"
      by simp
    show ?thesis
      by (simp add: h1 fin h3)
  qed
  with fin show ?thesis by blast
qed

theorem completed_leaves_phase_unchanged_witness:
  "handle_event answering completed_event = Inr (answering, [ExecDone]) \<and>
   run_events answering
     [interpreting_event, completed_event,
      delta_event ''response.output_text.delta'' ''4'']
     = ([BeginPhase PExecuting, ExecDone, BeginPhase PText, AppendText (JStr ''4'')],
        Inr answering)"
proof -
  have f: "is_event ''response.code_interpreter_call.completed'' completed_event"
    by (simp add: is_event_def completed_event_def getd_def)
  have i: "is_event ''response.code_interpreter_call.interpreting'' interpreting_event"
    by (simp add: is_event_def interpreting_event_def getd_def)
  have k: "(''response.output_text.delta'', PText) \<in> set delta_kinds"
    by (simp add: delta_kinds_def)
  show ?thesis
    using completed_leaves_phase_unchanged [OF f, of answering interpreting_event
        "''response.output_text.delta''" PText
        "delta_event ''response.output_text.delta'' ''4''"]
      i k is_event_delta_event [of "''response.output_text.delta''" "''4''"]
    by (simp add: delta_of_delta_event answering_def)
qed

text \<open>
  The counterexample to C6 as stated: after an \<^verbatim>\<open>interpreting\<close> and a \<^verbatim>\<open>completed\<close>
  event the phase is 'executing', not \<^verbatim>\<open>None\<close>.
\<close>

theorem completed_does_not_clear_phase:
  "snd (run_events initial [interpreting_event, completed_event])
     = Inr \<lparr>response_id = JNull, current_phase = Some PExecuting\<rparr> \<and>
   snd (run_events initial [interpreting_event, completed_event])
     \<noteq> Inr \<lparr>response_id = JNull, current_phase = None\<rparr>"
  by (simp add: initial_def interpreting_event_def completed_event_def getd_def)

section \<open>The id a turn returns\<close>

lemma handle_event_response_id:
  assumes "handle_event s e = Inr (s', acts)"
  shows "response_id s' = (if is_event ''response.created'' e then created_id e else response_id s)"
  using assms
  by (cases e)
    (auto simp: is_event_def created_id_def delta_branch_def Let_def
      split: if_splits sum.splits json.splits)

lemma run_events_response_id:
  assumes "run_events s es = (acts, Inr s')"
  shows "response_id s' =
     (case filter (is_event ''response.created'') es of
        [] \<Rightarrow> response_id s
      | c # cs \<Rightarrow> created_id (last (c # cs)))"
  using assms
proof (induction es arbitrary: s acts)
  case Nil
  then show ?case by simp
next
  case (Cons e es)
  from Cons.prems obtain s1 a1 a2 where h: "handle_event s e = Inr (s1, a1)"
    and r: "run_events s1 es = (a2, Inr s')"
    by (auto split: sum.splits prod.splits)
  note ih = Cons.IH [OF r]
  note hid = handle_event_response_id [OF h]
  show ?case
    using ih hid by (auto split: list.splits)
qed

text \<open>What \<^verbatim>\<open>print_streaming_response\<close> returns is the id in the state after the last event.\<close>

lemma print_streaming_response_returns:
  assumes "print_streaming_response ext ui tools pid = (acts, Inr rid)"
  obtains a s where
    "run_events \<lparr>response_id = JNull, current_phase = None\<rparr>
       (fst (stream_response ext ui tools pid)) = (a, Inr s)"
    and "rid = response_id s"
  using assms
  by (auto simp: print_streaming_response_def split: prod.splits sum.splits)

lemma print_streaming_response_id:
  assumes "print_streaming_response ext ui tools pid = (acts, Inr rid)"
  shows "rid =
     (case filter (is_event ''response.created'') (fst (stream_response ext ui tools pid)) of
        [] \<Rightarrow> JNull
      | c # cs \<Rightarrow> created_id (last (c # cs)))"
proof -
  from assms obtain a s where
    r: "run_events \<lparr>response_id = JNull, current_phase = None\<rparr>
          (fst (stream_response ext ui tools pid)) = (a, Inr s)"
    and i: "rid = response_id s"
    by (rule print_streaming_response_returns)
  from run_events_response_id [OF r] i show ?thesis by (simp split: list.splits)
qed

text \<open>How \<^verbatim>\<open>main\<close> updates \<^verbatim>\<open>previous_id\<close> after a streaming request.\<close>

lemma main_turn_streaming_id:
  "snd (main_turn ext False ui tools pid) =
     (case snd (print_streaming_response ext ui tools pid) of Inl e \<Rightarrow> pid | Inr rid \<Rightarrow> rid)"
  by (simp add: main_turn_def split: prod.splits sum.splits)

text \<open>
  C3, as the code has it. When the events of a turn include \<^verbatim>\<open>response.created\<close> events,
  the id the interpreter returns is the one carried by the last of them: each such event
  overwrites the id captured before.
\<close>

theorem returned_id_is_last_created:
  assumes "print_streaming_response ext ui tools pid = (acts, Inr rid)"
    and "filter (is_event ''response.created'') (fst (stream_response ext ui tools pid)) = cs"
    and "cs \<noteq> []"
  shows "rid = created_id (last cs)"
  using print_streaming_response_id [OF assms(1)] assms(2,3)
  by (simp split: list.splits)

lemma two_ids_events:
  "stream_response two_ids ''hi'' [] JNull
     = ([created_event ''resp_a'', created_event ''resp_b''],
        Inr (JObj [(''id'', JStr ''resp_b''), (''text'', JStr [])]))"
  by (simp add: stream_response_def two_ids_def canned_def startswith_def created_event_def
      getd_def)

lemma two_ids_printed:
  "print_streaming_response two_ids ''hi'' [] JNull = ([GrayStart, Reset], Inr (JStr ''resp_b''))"
  by (simp add: print_streaming_response_def two_ids_events)
    (simp add: created_event_def getd_def)

lemma created_id_created_event: "created_id (created_event i) = JStr i"
  by (simp add: created_id_def created_event_def getd_def)

lemma is_event_created_event: "is_event ''response.created'' (created_event i)"
  by (simp add: is_event_def created_event_def getd_def)

theorem returned_id_is_last_created_witness:
  "snd (print_streaming_response two_ids ''hi'' [] JNull)
     = Inr (created_id (last [created_event ''resp_a'', created_event ''resp_b'']))"
proof -
  have f: "filter (is_event ''response.created'') (fst (stream_response two_ids ''hi'' [] JNull))
             = [created_event ''resp_a'', created_event ''resp_b'']"
    by (simp add: two_ids_events is_event_created_event)
  have n: "[created_event ''resp_a'', created_event ''resp_b''] \<noteq> []"
    by simp
  from returned_id_is_last_created [OF two_ids_printed f n] show ?thesis
    by (simp add: two_ids_printed)
qed

text \<open>
  The counterexample to C3 as stated: of two \<^verbatim>\<open>response.created\<close> events with the ids
  \<^verbatim>\<open>resp_a\<close> and \<^verbatim>\<open>resp_b\<close>, in this order, the interpreter returns \<^verbatim>\<open>resp_b\<close>, not the
  id of the first.
\<close>

theorem returned_id_is_not_first_created:
  "fst (stream_response two_ids ''hi'' [] JNull)
     = [created_event ''resp_a'', created_event ''resp_b''] \<and>
   snd (print_streaming_response two_ids ''hi'' [] JNull) = Inr (JStr ''resp_b'') \<and>
   snd (print_streaming_response two_ids ''hi'' [] JNull)
     \<noteq> Inr (created_id (created_event ''resp_a''))"
  by (simp add: two_ids_events two_ids_printed created_id_created_event)

text \<open>
  C1, as the code has it. When no event of a turn is a \<^verbatim>\<open>response.created\<close> event and the
  interpreter returns, it returns \<^verbatim>\<open>None\<close>, and \<^verbatim>\<open>main\<close> stores that \<^verbatim>\<open>None\<close> as the id
  for the next request: the id stored before is overwritten. The id stored before is
  kept only when the turn ends by an exception.
\<close>

theorem no_created_event_returns_none_and_overwrites:
  assumes "\<forall>e\<in>set (fst (stream_response ext ui tools pid)). \<not> is_event ''response.created'' e"
  shows "case snd (print_streaming_response ext ui tools pid) of
           Inl e \<Rightarrow> snd (main_turn ext False ui tools pid) = pid
         | Inr rid \<Rightarrow> rid = JNull \<and> snd (main_turn ext False ui tools pid) = JNull"
proof (cases "snd (print_streaming_response ext ui tools pid)")
  case (Inl e)
  then show ?thesis by (simp add: main_turn_streaming_id)
next
  case (Inr rid)
  then obtain acts where p: "print_streaming_response ext ui tools pid = (acts, Inr rid)"
    by (cases "print_streaming_response ext ui tools pid") simp
  from assms
  have "filter (is_event ''response.created'') (fst (stream_response ext ui tools pid)) = []"
    by (simp add: filter_empty_conv)
  with print_streaming_response_id [OF p] have "rid = JNull" by simp
  with Inr show ?thesis by (simp add: main_turn_streaming_id)
qed

lemma one_delta_events:
  "stream_response one_delta ''hi'' [] (JStr ''resp_1'')
     = ([delta_event ''response.output_text.delta'' ''Hello''],
        Inr (JObj [(''id'', JNull), (''text'', JStr [])]))"
  by (simp add: stream_response_def one_delta_def canned_def startswith_def delta_event_def
      getd_def)

theorem no_created_event_returns_none_and_overwrites_witness:
  "snd (print_streaming_response one_delta ''hi'' [] (JStr ''resp_1'')) = Inr JNull \<and>
   snd (main_turn one_delta False ''hi'' [] (JStr ''resp_1'')) = JNull"
proof -
  have n: "\<forall>e\<in>set (fst (stream_response one_delta ''hi'' [] (JStr ''resp_1''))).
             \<not> is_event ''response.created'' e"
    by (simp add: one_delta_events is_event_def delta_event_def getd_def)
  have r: "snd (print_streaming_response one_delta ''hi'' [] (JStr ''resp_1'')) = Inr JNull"
    by (simp add: print_streaming_response_def one_delta_events)
      (simp add: delta_event_def getd_def delta_branch_def)
  from no_created_event_returns_none_and_overwrites [OF n] r show ?thesis
    by simp
qed

text \<open>
  The counterexample to C1 as stated: the stored id is \<^verbatim>\<open>resp_1\<close>, the stream of the turn
  holds no \<^verbatim>\<open>response.created\<close> event, and after the turn the stored id is \<^verbatim>\<open>None\<close>.
\<close>

theorem stored_id_overwritten_with_none:
  "fst (stream_response done_only ''hi'' [] (JStr ''resp_1'')) = [] \<and>
   main_turn done_only False ''hi'' [] (JStr ''resp_1'')
     = ([AssistantLabel, GrayStart, Reset], JNull) \<and>
   snd (main_turn done_only False ''hi'' [] (JStr ''resp_1'')) \<noteq> JStr ''resp_1''"
  by (simp add: main_turn_def print_streaming_response_def stream_response_def done_only_def
      canned_def startswith_def)

section \<open>The decoder, frame by frame\<close>

text \<open>A data frame that is not JSON is passed over.\<close>

lemma read_lines_skips_malformed:
  assumes "utf8_decode ext line = Some (''data: '' @ g)" and "g \<noteq> ''[DONE]''"
    and "json_loads ext g = None"
  shows "read_lines ext stop rid (line # rest) = read_lines ext stop rid rest"
  using assms by (simp add: startswith_def)

text \<open>A data frame that holds a delta event is yielded, and the loop goes on.\<close>

lemma read_lines_yields_delta:
  assumes "line \<noteq> []" and "utf8_decode ext line = Some (''data: '' @ d)"
    and "d \<noteq> ''[DONE]''" and "json_loads ext d = Some e"
    and "(t, p) \<in> set delta_kinds" and "is_event t e"
  shows "read_lines ext stop rid (line # rest)
           = (e # fst (read_lines ext stop rid rest), snd (read_lines ext stop rid rest))"
proof -
  from assms(5) have "t \<noteq> ''response.created''"
    by (auto simp: delta_kinds_def)
  with assms(6) obtain ev where e: "e = JObj ev"
    and ty: "getd ev ''type'' (JStr []) \<noteq> JStr ''response.created''"
    by (cases e) (auto simp: is_event_def)
  show ?thesis
    using assms(1-4) e ty by (simp add: startswith_def split: prod.splits)
qed

text \<open>The end marker stops the loop, whatever follows it.\<close>

lemma read_lines_stops_at_done:
  assumes "line \<noteq> []" and "utf8_decode ext line = Some ''data: [DONE]''"
  shows "read_lines ext stop rid (line # rest)
           = ([], Inr (JObj [(''id'', rid), (''text'', JStr [])]))"
  using assms by (simp add: startswith_def)

text \<open>
  C8. A data frame whose payload is not JSON is skipped: it yields no event and raises
  nothing. So a stream of a delta, a malformed frame, a delta and the end marker is
  printed as the two deltas (exactly two texts) and the turn returns without an error,
  whatever the server sends after the end marker.
\<close>

theorem malformed_frame_is_skipped:
  assumes "post_stream ext (JObj (stream_payload ui tools pid)) = ([l1, l2, l3, l4] @ later, stop)"
    and "l1 \<noteq> []" and "utf8_decode ext l1 = Some (''data: '' @ d1)" and "d1 \<noteq> ''[DONE]''"
    and "json_loads ext d1 = Some e1" and "(t1, p1) \<in> set delta_kinds" and "is_event t1 e1"
    and "utf8_decode ext l2 = Some (''data: '' @ g)" and "g \<noteq> ''[DONE]''"
    and "json_loads ext g = None"
    and "l3 \<noteq> []" and "utf8_decode ext l3 = Some (''data: '' @ d2)" and "d2 \<noteq> ''[DONE]''"
    and "json_loads ext d2 = Some e2" and "(t2, p2) \<in> set delta_kinds" and "is_event t2 e2"
    and "l4 \<noteq> []" and "utf8_decode ext l4 = Some ''data: [DONE]''"
  shows "read_lines ext stop rid (l2 # rest) = read_lines ext stop rid rest \<and>
         fst (stream_response ext ui tools pid) = [e1, e2] \<and>
         print_streaming_response ext ui tools pid
           = (GrayStart # BeginPhase p1 # AppendText (delta_of e1)
                # (if p2 = p1 then [] else [BeginPhase p2]) @ [AppendText (delta_of e2), Reset],
              Inr JNull) \<and>
         appended (fst (print_streaming_response ext ui tools pid)) = [delta_of e1, delta_of e2]"
proof -
  have skip: "read_lines ext stop' rid' (l2 # rest') = read_lines ext stop' rid' rest'"
    for stop' rid' rest'
    by (rule read_lines_skips_malformed [OF assms(8) assms(9) assms(10)])
  have fin: "read_lines ext stop JNull (l4 # later)
               = ([], Inr (JObj [(''id'', JNull), (''text'', JStr [])]))"
    by (rule read_lines_stops_at_done [OF assms(17) assms(18)])
  have r3: "read_lines ext stop JNull (l3 # l4 # later)
              = ([e2], Inr (JObj [(''id'', JNull), (''text'', JStr [])]))"
    using read_lines_yields_delta [OF assms(11) assms(12) assms(13) assms(14) assms(15) assms(16),
        of stop JNull "l4 # later"]
    by (simp only: fin fst_conv snd_conv)
  have r2: "read_lines ext stop JNull (l2 # l3 # l4 # later)
              = ([e2], Inr (JObj [(''id'', JNull), (''text'', JStr [])]))"
    by (simp only: skip r3)
  have r1: "read_lines ext stop JNull (l1 # l2 # l3 # l4 # later)
              = ([e1, e2], Inr (JObj [(''id'', JNull), (''text'', JStr [])]))"
    using read_lines_yields_delta [OF assms(2) assms(3) assms(4) assms(5) assms(6) assms(7),
        of stop JNull "l2 # l3 # l4 # later"]
    by (simp only: r2 fst_conv snd_conv)
  define es where "es = [e1, e2]"
  have sr: "stream_response ext ui tools pid
              = (es, Inr (JObj [(''id'', JNull), (''text'', JStr [])]))"
    using assms(1) r1 by (simp add: stream_response_def es_def)
  have h1: "handle_event \<lparr>response_id = JNull, current_phase = None\<rparr> e1
              = Inr (\<lparr>response_id = JNull, current_phase = Some p1\<rparr>,
                     [BeginPhase p1, AppendText (delta_of e1)])"
    using handle_delta [OF assms(6) assms(7), of "\<lparr>response_id = JNull, current_phase = None\<rparr>"]
    by simp
  have h2: "handle_event \<lparr>response_id = JNull, current_phase = Some p1\<rparr> e2
              = Inr (\<lparr>response_id = JNull, current_phase = Some p2\<rparr>,
                     (if p2 = p1 then [] else [BeginPhase p2]) @ [AppendText (delta_of e2)])"
    using handle_delta [OF assms(15) assms(16),
        of "\<lparr>response_id = JNull, current_phase = Some p1\<rparr>"]
    by auto
  have run: "run_events \<lparr>response_id = JNull, current_phase = None\<rparr> es
               = (BeginPhase p1 # AppendText (delta_of e1)
                    # (if p2 = p1 then [] else [BeginPhase p2]) @ [AppendText (delta_of e2)],
                  Inr \<lparr>response_id = JNull, current_phase = Some p2\<rparr>)"
    by (simp add: es_def h1 h2)
  have pr: "print_streaming_response ext ui tools pid
           = (GrayStart # BeginPhase p1 # AppendText (delta_of e1)
                # (if p2 = p1 then [] else [BeginPhase p2]) @ [AppendText (delta_of e2), Reset],
              Inr JNull)"
    by (simp add: print_streaming_response_def sr run)
  have ap: "appended (fst (print_streaming_response ext ui tools pid))
              = [delta_of e1, delta_of e2]"
    by (simp add: pr appended_def)
  from skip sr pr ap show ?thesis by (simp add: es_def)
qed

theorem malformed_frame_is_skipped_witness:
  "read_lines garbled None JNull [''data: {oops''] = read_lines garbled None JNull [] \<and>
   fst (stream_response garbled ''hi'' [] JNull)
     = [delta_event ''response.output_text.delta'' ''Hel'',
        delta_event ''response.output_text.delta'' ''lo''] \<and>
   print_streaming_response garbled ''hi'' [] JNull
     = ([GrayStart, BeginPhase PText, AppendText (JStr ''Hel''), AppendText (JStr ''lo''), Reset],
        Inr JNull) \<and>
   appended (fst (print_streaming_response garbled ''hi'' [] JNull)) = [JStr ''Hel'', JStr ''lo'']"
proof -
  have k: "(''response.output_text.delta'', PText) \<in> set delta_kinds"
    by (simp add: delta_kinds_def)
  have p: "post_stream garbled (JObj (stream_payload ''hi'' [] JNull))
             = ([''data: D1'', ''data: {oops'', ''data: D2'', ''data: [DONE]''] @ [], None)"
    by (simp add: garbled_def canned_def)
  have d1: "utf8_decode garbled ''data: D1'' = Some (''data: '' @ ''D1'')"
    and d2: "utf8_decode garbled ''data: D2'' = Some (''data: '' @ ''D2'')"
    and g: "utf8_decode garbled ''data: {oops'' = Some (''data: '' @ ''{oops'')"
    and f: "utf8_decode garbled ''data: [DONE]'' = Some ''data: [DONE]''"
    by (simp_all add: garbled_def canned_def)
  have j1: "json_loads garbled ''D1'' = Some (delta_event ''response.output_text.delta'' ''Hel'')"
    and j2: "json_loads garbled ''D2'' = Some (delta_event ''response.output_text.delta'' ''lo'')"
    and jg: "json_loads garbled ''{oops'' = None"
    by (simp_all add: garbled_def canned_def)
  have ne: "''data: D1'' \<noteq> []" "''data: D2'' \<noteq> []" "''data: [DONE]'' \<noteq> []"
    and nd: "''D1'' \<noteq> ''[DONE]''" "''D2'' \<noteq> ''[DONE]''" "''{oops'' \<noteq> ''[DONE]''"
    by simp_all
  note th = malformed_frame_is_skipped [where rid = JNull and rest = "[]",
      OF p ne(1) d1 nd(1) j1 k is_event_delta_event
      g nd(3) jg ne(2) d2 nd(2) j2 k is_event_delta_event ne(3) f]
  from th have a: "read_lines garbled None JNull [''data: {oops'']
                     = read_lines garbled None JNull []"
    by (rule conjunct1)
  from th [THEN conjunct2] have b:
    "fst (stream_response garbled ''hi'' [] JNull)
       = [delta_event ''response.output_text.delta'' ''Hel'',
          delta_event ''response.output_text.delta'' ''lo''] \<and>
     print_streaming_response garbled ''hi'' [] JNull
       = ([GrayStart, BeginPhase PText, AppendText (JStr ''Hel''), AppendText (JStr ''lo''),
           Reset], Inr JNull) \<and>
     appended (fst (print_streaming_response garbled ''hi'' [] JNull))
       = [JStr ''Hel'', JStr ''lo'']"
    by (simp add: delta_of_delta_event appended_def)
  from a b show ?thesis by (rule conjI)
qed

section \<open>The streaming printer and the non-streaming printer on the same turn\<close>

subsection \<open>What the output of the interpreter says about the events\<close>

lemma phases_entered_simps:
  "phases_entered [] = {}"
  "phases_entered (BeginPhase p # acts) = insert p (phases_entered acts)"
  "phases_entered (AppendText v # acts) = phases_entered acts"
  "phases_entered (ExecDone # acts) = phases_entered acts"
  "phases_entered (ToolAnnounce v # acts) = phases_entered acts"
  "phases_entered (ToolArguments v # acts) = phases_entered acts"
  "phases_entered (ToolInstruction # acts) = phases_entered acts"
  "phases_entered (EllipsisMark # acts) = phases_entered acts"
  "phases_entered (BlankLine # acts) = phases_entered acts"
  by (simp_all add: phases_entered_def)



lemma phase_after_append:
  "phase_after ph (a @ b) = phase_after (phase_after ph a) b"
  by (induction ph a rule: phase_after.induct) simp_all


text \<open>One event: the printed markers follow the phase of the interpreter.\<close>

lemma handle_event_phase_after:
  assumes "handle_event s e = Inr (s', a)"
  shows "phase_after (current_phase s) a = current_phase s'"
  using assms
  by (cases e) (auto simp: delta_branch_def Let_def split: if_splits sum.splits)



text \<open>A run of events that returns.\<close>

lemma run_events_phase_after:
  assumes "run_events s es = (acts, Inr s')"
  shows "phase_after (current_phase s) acts = current_phase s'"
  using assms
proof (induction es arbitrary: s acts)
  case Nil
  then show ?case by simp
next
  case (Cons e es)
  from Cons.prems obtain s1 a1 a2 where h: "handle_event s e = Inr (s1, a1)"
    and r: "run_events s1 es = (a2, Inr s')" and a: "acts = a1 @ a2"
    by (auto split: sum.splits prod.splits)
  from Cons.IH [OF r] handle_event_phase_after [OF h] a show ?case
    by (simp add: phase_after_append)
qed





subsection \<open>The streamed form of a turn\<close>
















subsection \<open>The finished form of a turn\<close>






subsection \<open>The two forms compared\<close>







text \<open>
  The other way the phases differ: a message without any text is printed by the
  non-streaming printer, which enters 'text', and brings no event to the streaming
  interpreter, which enters no phase.
\<close>

lemma phases_differ_for_empty_message:
  "run_events initial (turn_events ''r1'' empty_message_turn)
     = ([], Inr \<lparr>response_id = JStr ''r1'', current_phase = None\<rparr>) \<and>
   print_non_streaming_response (turn_response ''r1'' empty_message_turn)
     = ([BeginPhase PText, AppendText (JStr []), BlankLine], Inr (JStr ''r1'')) \<and>
   phases_entered (fst (run_events initial (turn_events ''r1'' empty_message_turn))) = {} \<and>
   phases_entered (fst (print_non_streaming_response (turn_response ''r1'' empty_message_turn)))
     = {PText}"
proof -
  have s: "run_events initial (turn_events ''r1'' empty_message_turn)
             = ([], Inr \<lparr>response_id = JStr ''r1'', current_phase = None\<rparr>)"
    by (simp add: turn_events_def empty_message_turn_def created_event_def initial_def getd_def)
  have f: "print_non_streaming_response (turn_response ''r1'' empty_message_turn)
             = ([BeginPhase PText, AppendText (JStr []), BlankLine], Inr (JStr ''r1''))"
    by (simp add: turn_response_def empty_message_turn_def getd_def usage_note_def)
  show ?thesis
    by (simp add: s f phases_entered_simps)
qed

end
